theory Spec2Isabelle
  imports Complex_Main "HOL-Library.Char_ord" "HOL-Library.List_Lexorder"
begin

section \<open>OBD2 data visualizer: the loader and the normalize step of visualizer.py\<close>

text \<open>
  The program is a Python script over the pandas library. Every pandas call of
  \<^verbatim>\<open>load_data\<close> is a function of this theory with the call's name, and
  \<^verbatim>\<open>load_data\<close> composes them in the order of the source.

  Conventions of the model:
  \<^item> a float is an exact rational (\<open>rat\<close>); NaN, the missing value, is \<open>None\<close>.
    Rounding and the infinities of IEEE arithmetic are not part of the model;
  \<^item> a cell of the frame that \<^verbatim>\<open>read_csv\<close> returns holds a number, a string or NaN;
  \<^item> a file is the list of its records, the header first, each record the list of its
    fields as the tokenizer of \<^verbatim>\<open>read_csv\<close> delivers them for \<^verbatim>\<open>sep=';'\<close>
    (quotes removed, blank lines gone). The header's fields are taken as the labels;
    the renaming that \<^verbatim>\<open>read_csv\<close> applies to blank or repeated header fields and
    labels that coincide only after trimming are outside the model;
  \<^item> which tokens are numbers is a parameter (\<open>dialect\<close>), so the theorems hold for
    every numeric grammar; \<open>plain\<close> is the instance used for the examples;
  \<^item> an exception is a value \<open>Inl e\<close>.
\<close>

subsection \<open>Values\<close>

datatype scalar = Num rat | Str string

type_synonym cell = "scalar option"

instantiation scalar :: linorder
begin

fun less_eq_scalar :: "scalar \<Rightarrow> scalar \<Rightarrow> bool" where
  "less_eq_scalar (Num a) (Num b) = (a \<le> b)"
| "less_eq_scalar (Num a) (Str b) = True"
| "less_eq_scalar (Str a) (Num b) = False"
| "less_eq_scalar (Str a) (Str b) = (a \<le> b)"

definition less_scalar :: "scalar \<Rightarrow> scalar \<Rightarrow> bool" where
  "less_scalar x y = (x \<le> y \<and> \<not> y \<le> x)"

instance
proof
  fix x y z :: scalar
  show "(x < y) = (x \<le> y \<and> \<not> y \<le> x)"
    by (simp add: less_scalar_def)
  show "x \<le> x"
    by (cases x) simp_all
  show "x \<le> y \<Longrightarrow> y \<le> z \<Longrightarrow> x \<le> z"
    by (cases x; cases y; cases z) auto
  show "x \<le> y \<Longrightarrow> y \<le> x \<Longrightarrow> x = y"
    by (cases x; cases y) auto
  show "x \<le> y \<or> y \<le> x"
    by (cases x; cases y) auto
qed

end

datatype error = EmptyDataError | KeyError | TypeError

text \<open>A frame as \<^verbatim>\<open>read_csv\<close> returns it: the labelled columns, in file order.\<close>

type_synonym frame = "(string \<times> cell list) list"

text \<open>
  The canonical table: the row keys (the index, named SECONDS) and the labelled columns
  of floats, each as long as the index.
\<close>

record table =
  index :: "scalar list"
  columns :: "(scalar \<times> rat option list) list"

fun is_text :: "cell \<Rightarrow> bool" where
  "is_text (Some (Str s)) = True"
| "is_text _ = False"

fun as_float :: "cell \<Rightarrow> rat option" where
  "as_float (Some (Num x)) = Some x"
| "as_float _ = None"

subsection \<open>read\_csv(file, sep=';', on\_bad\_lines='skip')\<close>

text \<open>
  The tokens \<^verbatim>\<open>read_csv\<close> and \<^verbatim>\<open>to_numeric\<close> read: \<open>na_token\<close> the strings
  read as NaN, \<open>csv_number\<close> the numbers and \<open>csv_bool\<close> the truth values of
  \<^verbatim>\<open>read_csv\<close>, \<open>to_number\<close> the number \<^verbatim>\<open>to_numeric\<close> reads from a string.
\<close>

record dialect =
  na_token :: "string \<Rightarrow> bool"
  csv_number :: "string \<Rightarrow> rat option"
  csv_bool :: "string \<Rightarrow> bool option"
  to_number :: "string \<Rightarrow> rat option"

text \<open>
  The tokenizer counts fields against the previous kept line, starting after the first
  data line: that line is never bad, and with the header it fixes the expected count.
\<close>

definition expected_fields :: "string list \<Rightarrow> string list list \<Rightarrow> nat" where
  "expected_fields hdr recs =
     (case recs of [] \<Rightarrow> length hdr | r # rs \<Rightarrow> max (length hdr) (length r))"

text \<open>\<^verbatim>\<open>on_bad_lines='skip'\<close>: a later line with more fields is dropped.\<close>

definition retained :: "string list \<Rightarrow> string list list \<Rightarrow> string list list" where
  "retained hdr recs =
     (case recs of [] \<Rightarrow> []
      | r # rs \<Rightarrow> r # filter (\<lambda>x. length x \<le> expected_fields hdr recs) rs)"

text \<open>A line with fewer fields is kept and completed with empty fields.\<close>

definition pad :: "nat \<Rightarrow> string list \<Rightarrow> string list" where
  "pad w r = r @ replicate (w - length r) []"

text \<open>
  The conversion of one column: numbers when every token is a number or NaN, truth
  values (as the numbers 1 and 0, which is how every later step of the program reads
  them) when every token is a truth value or NaN, strings otherwise.
\<close>

definition read_number :: "dialect \<Rightarrow> string \<Rightarrow> cell" where
  "read_number D t = (if na_token D t then None else map_option Num (csv_number D t))"

definition read_bool :: "dialect \<Rightarrow> string \<Rightarrow> cell" where
  "read_bool D t =
     (if na_token D t then None
      else map_option (\<lambda>b. Num (if b then 1 else 0)) (csv_bool D t))"

definition read_string :: "dialect \<Rightarrow> string \<Rightarrow> cell" where
  "read_string D t = (if na_token D t then None else Some (Str t))"

definition convert_column :: "dialect \<Rightarrow> string list \<Rightarrow> cell list" where
  "convert_column D toks =
     (if \<forall>t\<in>set toks. na_token D t \<or> csv_number D t \<noteq> None
        then map (read_number D) toks
      else if \<forall>t\<in>set toks. na_token D t \<or> csv_bool D t \<noteq> None
        then map (read_bool D) toks
      else map (read_string D) toks)"

text \<open>
  When the first data line has more fields than the header, the leading fields are
  the index and the header names the last ones.
\<close>

definition read_csv :: "dialect \<Rightarrow> string list list \<Rightarrow> error + frame" where
  "read_csv D file =
     (case file of
        [] \<Rightarrow> Inl EmptyDataError
      | hdr # recs \<Rightarrow>
          if hdr = [] then Inl EmptyDataError
          else
            let w = expected_fields hdr recs;
                rows = map (pad w) (retained hdr recs);
                lead = w - length hdr
            in Inr (map (\<lambda>j. (hdr ! j, convert_column D (map (\<lambda>r. r ! (lead + j)) rows)))
                      [0..<length hdr]))"

subsection \<open>df.columns.str.strip()\<close>

text \<open>The ASCII characters for which \<^verbatim>\<open>str.isspace\<close> holds.\<close>

definition isspace :: "char \<Rightarrow> bool" where
  "isspace c =
     (c \<in> set [CHR 0x09, CHR 0x0A, CHR 0x0B, CHR 0x0C, CHR 0x0D,
               CHR 0x1C, CHR 0x1D, CHR 0x1E, CHR 0x1F, CHR 0x20])"

definition strip :: "string \<Rightarrow> string" where
  "strip s = rev (dropWhile isspace (rev (dropWhile isspace s)))"

definition strip_columns :: "frame \<Rightarrow> frame" where
  "strip_columns df = map (\<lambda>(l, c). (strip l, c)) df"

definition labels :: "frame \<Rightarrow> string list" where
  "labels df = map fst df"

subsection \<open>Grouping and the mean\<close>

fun valid :: "'a option list \<Rightarrow> 'a list" where
  "valid [] = []"
| "valid (None # xs) = valid xs"
| "valid (Some x # xs) = x # valid xs"

text \<open>The mean skips NaN; the mean of no value is NaN.\<close>

definition mean :: "rat option list \<Rightarrow> rat option" where
  "mean vs =
     (if valid vs = [] then None
      else Some (sum_list (valid vs) / of_nat (length (valid vs))))"

text \<open>\<^verbatim>\<open>groupby\<close> drops the rows whose key is NaN.\<close>

fun keyed :: "'k option list \<Rightarrow> 'v list \<Rightarrow> ('k \<times> 'v) list" where
  "keyed (Some k # ks) (v # vs) = (k, v) # keyed ks vs"
| "keyed (None # ks) (v # vs) = keyed ks vs"
| "keyed _ _ = []"

definition get_group :: "('k \<times> 'v) list \<Rightarrow> 'k \<Rightarrow> 'v list" where
  "get_group rows k = map snd (filter (\<lambda>r. fst r = k) rows)"

text \<open>
  The mean of one column per group, for the groups \<open>ks\<close>. A string among the grouped
  cells makes the aggregation fail.
\<close>

definition group_means :: "('k \<times> cell) list \<Rightarrow> 'k list \<Rightarrow> error + rat option list" where
  "group_means rows ks =
     (if \<exists>r\<in>set rows. is_text (snd r) then Inl TypeError
      else Inr (map (\<lambda>k. mean (map as_float (get_group rows k))) ks))"

subsection \<open>sort\_index, dropna, ffill, bfill\<close>

definition sort_index :: "table \<Rightarrow> table" where
  "sort_index t =
     \<lparr>index = sort (index t),
      columns = map (\<lambda>(l, vs). (l, map snd (sort_key fst (zip (index t) vs)))) (columns t)\<rparr>"

text \<open>\<^verbatim>\<open>dropna(axis=1, how='all')\<close>: a column stays when it has a value.\<close>

definition dropna_all :: "table \<Rightarrow> table" where
  "dropna_all t = t\<lparr>columns := filter (\<lambda>(l, vs). \<exists>v\<in>set vs. v \<noteq> None) (columns t)\<rparr>"

fun ffill_from :: "'a option \<Rightarrow> 'a option list \<Rightarrow> 'a option list" where
  "ffill_from l [] = []"
| "ffill_from l (None # xs) = l # ffill_from l xs"
| "ffill_from l (Some v # xs) = Some v # ffill_from (Some v) xs"

definition ffill_series :: "'a option list \<Rightarrow> 'a option list" where
  "ffill_series xs = ffill_from None xs"

fun bfill_series :: "'a option list \<Rightarrow> 'a option list" where
  "bfill_series [] = []"
| "bfill_series (Some v # xs) = Some v # bfill_series xs"
| "bfill_series (None # xs) =
     (case bfill_series xs of [] \<Rightarrow> None | y # ys \<Rightarrow> y) # bfill_series xs"

definition ffill :: "table \<Rightarrow> table" where
  "ffill t = t\<lparr>columns := map (\<lambda>(l, vs). (l, ffill_series vs)) (columns t)\<rparr>"

definition bfill :: "table \<Rightarrow> table" where
  "bfill t = t\<lparr>columns := map (\<lambda>(l, vs). (l, bfill_series vs)) (columns t)\<rparr>"

subsection \<open>pivot\_table(index='SECONDS', columns='PID', values='VALUE', aggfunc='mean')\<close>

definition pair_key :: "'a option \<Rightarrow> 'b option \<Rightarrow> ('a \<times> 'b) option" where
  "pair_key s p = (case s of None \<Rightarrow> None | Some a \<Rightarrow> map_option (Pair a) p)"

text \<open>
  The rows are grouped by the pair (SECONDS, PID) and averaged; the groups whose mean
  is NaN are dropped; the PID level is unstacked into the columns, a pair with no group
  giving NaN; both axes come out sorted, and a column with no value is dropped.
\<close>

definition unstack :: "((scalar \<times> scalar) \<times> rat option) list \<Rightarrow> table" where
  "unstack agged =
     (let idx = sort (remdups (map (\<lambda>r. fst (fst r)) agged));
          pids = sort (remdups (map (\<lambda>r. snd (fst r)) agged))
      in \<lparr>index = idx,
          columns = map (\<lambda>p. (p, map (\<lambda>s. case map_of agged (s, p) of
                                             None \<Rightarrow> None | Some m \<Rightarrow> m) idx)) pids\<rparr>)"

definition pivot_table :: "frame \<Rightarrow> string \<Rightarrow> string \<Rightarrow> string \<Rightarrow> error + table" where
  "pivot_table df i c v =
     (case (map_of df i, map_of df c, map_of df v) of
        (Some S, Some P, Some V) \<Rightarrow>
          (let rows = keyed (map (\<lambda>(s, p). pair_key s p) (zip S P)) V;
               ks = remdups (map fst rows)
           in case group_means rows ks of
                Inl e \<Rightarrow> Inl e
              | Inr ms \<Rightarrow>
                  Inr (dropna_all (unstack (filter (\<lambda>r. snd r \<noteq> None) (zip ks ms)))))
      | _ \<Rightarrow> Inl KeyError)"

subsection \<open>The steps of the wide format\<close>

text \<open>\<^verbatim>\<open>df[col] / 1000.0\<close>: a string cell cannot be divided.\<close>

definition truediv :: "cell list \<Rightarrow> rat \<Rightarrow> error + cell list" where
  "truediv xs d =
     (if \<exists>x\<in>set xs. is_text x then Inl TypeError
      else Inr (map (\<lambda>x. map_option (\<lambda>a. Num (a / d)) (as_float x)) xs))"

text \<open>\<^verbatim>\<open>df[l] = c\<close>: an existing column is replaced in place, a new one is appended.\<close>

definition set_column :: "frame \<Rightarrow> string \<Rightarrow> cell list \<Rightarrow> frame" where
  "set_column df l c =
     (if l \<in> set (labels df) then map (\<lambda>(l', c'). if l' = l then (l', c) else (l', c')) df
      else df @ [(l, c)])"

definition drop_columns :: "frame \<Rightarrow> string \<Rightarrow> frame" where
  "drop_columns df l = filter (\<lambda>(l', c). l' \<noteq> l) df"

text \<open>\<^verbatim>\<open>df.replace('-', np.nan)\<close>\<close>

definition replace_value :: "frame \<Rightarrow> string \<Rightarrow> frame" where
  "replace_value df s = map (\<lambda>(l, c). (l, map (\<lambda>x. if x = Some (Str s) then None else x) c)) df"

text \<open>\<^verbatim>\<open>pd.to_numeric(series, errors='coerce')\<close>\<close>

fun coerce :: "dialect \<Rightarrow> cell \<Rightarrow> cell" where
  "coerce D (Some (Str s)) = map_option Num (to_number D s)"
| "coerce D x = x"

definition to_numeric :: "dialect \<Rightarrow> cell list \<Rightarrow> cell list" where
  "to_numeric D c = map (coerce D) c"

text \<open>The loop over \<^verbatim>\<open>sensor_cols\<close>: every column but SECONDS is converted.\<close>

definition convert_sensors :: "dialect \<Rightarrow> frame \<Rightarrow> frame" where
  "convert_sensors D df =
     map (\<lambda>(l, c). if l \<noteq> ''SECONDS'' then (l, to_numeric D c) else (l, c)) df"

fun collect :: "(error + 'a) list \<Rightarrow> error + 'a list" where
  "collect [] = Inr []"
| "collect (x # xs) =
     (case x of Inl e \<Rightarrow> Inl e
      | Inr a \<Rightarrow> (case collect xs of Inl e \<Rightarrow> Inl e | Inr as \<Rightarrow> Inr (a # as)))"

text \<open>\<^verbatim>\<open>df.groupby(key).mean()\<close>: the sorted keys, and the mean of every other column.\<close>

definition groupby_mean :: "frame \<Rightarrow> string \<Rightarrow> error + table" where
  "groupby_mean df key =
     (case map_of df key of
        None \<Rightarrow> Inl KeyError
      | Some K \<Rightarrow>
          (let idx = sort (remdups (valid K))
           in case collect (map (\<lambda>(l, c). group_means (keyed K c) idx) (drop_columns df key)) of
                Inl e \<Rightarrow> Inl e
              | Inr ms \<Rightarrow>
                  Inr \<lparr>index = idx,
                       columns = zip (map Str (labels (drop_columns df key))) ms\<rparr>))"

subsection \<open>load\_data\<close>

definition long_format :: "frame \<Rightarrow> bool" where
  "long_format df = (\<forall>col\<in>set [''SECONDS'', ''PID'', ''VALUE'']. col \<in> set (labels df))"

definition wide_format :: "frame \<Rightarrow> bool" where
  "wide_format df = (''time(ms)'' \<in> set (labels df))"

definition load_long :: "frame \<Rightarrow> error + table" where
  "load_long df =
     (case pivot_table df ''SECONDS'' ''PID'' ''VALUE'' of
        Inl e \<Rightarrow> Inl e
      | Inr t \<Rightarrow> Inr (bfill (ffill (sort_index t))))"

definition load_wide :: "dialect \<Rightarrow> frame \<Rightarrow> error + table" where
  "load_wide D df =
     (case map_of df ''time(ms)'' of
        None \<Rightarrow> Inl KeyError
      | Some ms \<Rightarrow>
          (case truediv ms 1000 of
             Inl e \<Rightarrow> Inl e
           | Inr secs \<Rightarrow>
               (let df1 = set_column df ''SECONDS'' secs;
                    df2 = drop_columns df1 ''time(ms)'';
                    df3 = replace_value df2 ''-'';
                    df4 = convert_sensors D df3
                in case groupby_mean df4 ''SECONDS'' of
                     Inl e \<Rightarrow> Inl e
                   | Inr g \<Rightarrow> Inr (bfill (ffill (dropna_all (sort_index g)))))))"

definition load_frame :: "dialect \<Rightarrow> frame \<Rightarrow> error + table option" where
  "load_frame D df =
     (if long_format df then map_sum id Some (load_long df)
      else if wide_format df then map_sum id Some (load_wide D df)
      else Inr None)"

definition load_data :: "dialect \<Rightarrow> string list list \<Rightarrow> error + table option" where
  "load_data D file =
     (case read_csv D file of
        Inl e \<Rightarrow> Inl e
      | Inr df \<Rightarrow> load_frame D (strip_columns df))"

subsection \<open>The normalize branch\<close>

text \<open>
  \<^verbatim>\<open>denom = plot_data.max() - plot_data.min()\<close> and
  \<^verbatim>\<open>plot_data = (plot_data - plot_data.min()) / denom.replace(0, 1)\<close>, column by
  column. The minimum and the maximum skip NaN and are NaN for a column with no value;
  an operation on NaN gives NaN.
\<close>

definition series_min :: "rat option list \<Rightarrow> rat option" where
  "series_min vs = (if valid vs = [] then None else Some (Min (set (valid vs))))"

definition series_max :: "rat option list \<Rightarrow> rat option" where
  "series_max vs = (if valid vs = [] then None else Some (Max (set (valid vs))))"

fun fsub :: "rat option \<Rightarrow> rat option \<Rightarrow> rat option" where
  "fsub (Some a) (Some b) = Some (a - b)"
| "fsub _ _ = None"


definition replace_zero :: "rat option \<Rightarrow> rat option" where
  "replace_zero d = (if d = Some 0 then Some 1 else d)"

definition divisor :: "rat option list \<Rightarrow> rat option" where
  "divisor vs = replace_zero (fsub (series_max vs) (series_min vs))"



subsection \<open>The main script\<close>





















subsection \<open>A dialect for the examples: plain decimal numerals\<close>

text \<open>
  The strings \<^verbatim>\<open>read_csv\<close> reads as NaN by default, its truth values, and the
  numerals made of an optional sign, digits and an optional fraction. pandas reads
  more tokens as numbers (exponents, surrounding blanks); the examples use none.
\<close>

definition na_values :: "string list" where
  "na_values =
     ['''', ''#N/A'', ''#N/A N/A'', ''#NA'', ''-1.#IND'', ''-1.#QNAN'', ''-NaN'', ''-nan'',
      ''1.#IND'', ''1.#QNAN'', ''<NA>'', ''N/A'', ''NA'', ''NULL'', ''NaN'', ''None'',
      ''n/a'', ''nan'', ''null'']"

definition digit :: "char \<Rightarrow> nat option" where
  "digit = map_of (zip ''0123456789'' [0, 1, 2, 3, 4, 5, 6, 7, 8, 9])"

fun digits :: "nat \<Rightarrow> string \<Rightarrow> nat option" where
  "digits a [] = Some a"
| "digits a (c # cs) = (case digit c of None \<Rightarrow> None | Some d \<Rightarrow> digits (10 * a + d) cs)"

definition unsigned :: "string \<Rightarrow> rat option" where
  "unsigned s =
     (let ip = takeWhile (\<lambda>c. c \<noteq> CHR ''.'') s;
          fp = drop 1 (dropWhile (\<lambda>c. c \<noteq> CHR ''.'') s)
      in if ip = [] \<and> fp = [] then None
         else case (digits 0 ip, digits 0 fp) of
                (Some a, Some b) \<Rightarrow> Some (of_nat a + of_nat b / 10 ^ length fp)
              | _ \<Rightarrow> None)"

definition decimal :: "string \<Rightarrow> rat option" where
  "decimal s =
     (case s of
        [] \<Rightarrow> None
      | c # cs \<Rightarrow>
          if c = CHR ''-'' then map_option uminus (unsigned cs)
          else if c = CHR ''+'' then unsigned cs
          else unsigned s)"

definition truth :: "string \<Rightarrow> bool option" where
  "truth s =
     (if s \<in> set [''True'', ''TRUE'', ''true''] then Some True
      else if s \<in> set [''False'', ''FALSE'', ''false''] then Some False
      else None)"

definition plain :: dialect where
  "plain = \<lparr>na_token = (\<lambda>s. s \<in> set na_values), csv_number = decimal,
            csv_bool = truth, to_number = decimal\<rparr>"

subsection \<open>Reading a table\<close>

text \<open>Every column of a table has one cell per row key.\<close>

definition rectangular :: "table \<Rightarrow> bool" where
  "rectangular t = (\<forall>c\<in>set (columns t). length (snd c) = length (index t))"

text \<open>The files of the examples.\<close>

definition gap_file :: "string list list" where
  "gap_file =
     [[''SECONDS'', ''PID'', ''VALUE''],
      [''0'', ''RPM'', ''800''],
      [''1'', ''Speed'', ''45''],
      [''2'', ''RPM'', ''900'']]"

definition wide_file :: "string list list" where
  "wide_file =
     [[''time(ms)'', ''Speed'', ''RPM''],
      [''1000'', ''-'', ''800''],
      [''2000'', ''45'', ''820'']]"

definition both_file :: "string list list" where
  "both_file =
     [[''SECONDS'', ''PID'', ''VALUE'', ''time(ms)''],
      [''0'', ''RPM'', ''800'', ''5000''],
      [''1'', ''RPM'', ''900'', ''7000'']]"


definition status_file :: "string list list" where
  "status_file =
     [[''SECONDS'', ''PID'', ''VALUE''],
      [''0'', ''RPM'', ''800''],
      [''1'', ''Fuel Status'', ''Closed Loop'']]"





text \<open>
  \<^verbatim>\<open>df.loc[s, p]\<close>: the cell of the table at row key \<open>s\<close> and column \<open>p\<close>; a
  KeyError when the table has no such row or column.
\<close>

definition loc :: "table \<Rightarrow> scalar \<Rightarrow> scalar \<Rightarrow> error + rat option" where
  "loc t s p =
     (case map_of (columns t) p of
        None \<Rightarrow> Inl KeyError
      | Some vs \<Rightarrow>
          (case map_of (zip (index t) vs) s of None \<Rightarrow> Inl KeyError | Some v \<Rightarrow> Inr v))"

text \<open>
  The duplicates of a pair: the values (NaN left out) of the rows of a long-format
  frame whose SECONDS is \<open>s\<close> and whose PID is \<open>p\<close>, given the three columns.
\<close>

definition duplicates :: "cell list \<Rightarrow> cell list \<Rightarrow> cell list \<Rightarrow> scalar \<Rightarrow> scalar \<Rightarrow> rat list" where
  "duplicates S P V s p =
     valid (map (\<lambda>r. as_float (snd (snd r)))
              (filter (\<lambda>r. fst r = Some s \<and> fst (snd r) = Some p) (zip S (zip P V))))"

definition spec_file :: "string list list" where
  "spec_file =
     [[''SECONDS'', ''PID'', ''VALUE''],
      [''0'', ''RPM'', ''800''],
      [''0'', ''RPM'', ''820''],
      [''1'', ''RPM'', ''900'']]"

text \<open>
  The wide format in the spec's words: the row key of a row is its time(ms) divided by
  1000; the value of a sensor cell is missing for the placeholder \<^verbatim>\<open>-\<close> and for
  a string that is not a number; the cell of the table before filling is the mean of
  the sensor values of the rows with that key.
\<close>

definition seconds_key :: "cell \<Rightarrow> cell" where
  "seconds_key x = map_option (\<lambda>a. Num (a / 1000)) (as_float x)"

definition sensor_value :: "dialect \<Rightarrow> cell \<Rightarrow> rat option" where
  "sensor_value D x = (if x = Some (Str ''-'') then None else as_float (coerce D x))"

definition wide_mean :: "dialect \<Rightarrow> cell list \<Rightarrow> cell list \<Rightarrow> scalar \<Rightarrow> rat option" where
  "wide_mean D ms c k = mean (map (sensor_value D) (get_group (keyed (map seconds_key ms) c) k))"

definition wide_groups :: "dialect \<Rightarrow> frame \<Rightarrow> cell list \<Rightarrow> table" where
  "wide_groups D df ms =
     (let idx = sort (remdups (valid (map seconds_key ms)))
      in \<lparr>index = idx,
          columns = map (\<lambda>(l, c). (Str l, map (wide_mean D ms c) idx))
                      (filter (\<lambda>(l, c). l \<noteq> ''SECONDS'' \<and> l \<noteq> ''time(ms)'') df)\<rparr>)"

text \<open>The frame that the wide format groups, given the SECONDS column.\<close>

definition prepared :: "dialect \<Rightarrow> frame \<Rightarrow> cell list \<Rightarrow> frame" where
  "prepared D df secs =
     convert_sensors D
       (replace_value (drop_columns (set_column df ''SECONDS'' secs) ''time(ms)'') ''-'')"


text \<open>
  Filling in the spec's words: a cell takes the nearest value at or before it, and when
  there is none, the nearest value after it.
\<close>

definition last_valid :: "'a option list \<Rightarrow> 'a option" where
  "last_valid xs = (if valid xs = [] then None else Some (last (valid xs)))"

definition first_valid :: "'a option list \<Rightarrow> 'a option" where
  "first_valid xs = (case valid xs of [] \<Rightarrow> None | v # vs \<Rightarrow> Some v)"

definition nearest_fill :: "'a option list \<Rightarrow> nat \<Rightarrow> 'a option" where
  "nearest_fill xs i =
     (case last_valid (take (Suc i) xs) of
        Some v \<Rightarrow> Some v
      | None \<Rightarrow> first_valid (drop (Suc i) xs))"

text \<open>\<^verbatim>\<open>df.dropna(subset=[key])\<close>: the frame without the rows whose key is NaN.\<close>

definition dropna_subset :: "frame \<Rightarrow> string \<Rightarrow> frame" where
  "dropna_subset df key =
     (case map_of df key of
        None \<Rightarrow> df
      | Some K \<Rightarrow> map (\<lambda>(l, c). (l, map snd (keyed K c))) df)"


definition untimed_file :: "string list list" where
  "untimed_file =
     [[''time(ms)'', ''RPM''],
      [''1000'', ''800''],
      ['''', ''999''],
      [''2000'', ''820'']]"

section \<open>Properties\<close>

subsection \<open>Filling\<close>

lemma length_ffill_from: "length (ffill_from l xs) = length xs"
  by (induction l xs rule: ffill_from.induct) simp_all

lemma length_bfill_series: "length (bfill_series xs) = length xs"
  by (induction xs rule: bfill_series.induct) simp_all

lemma length_fill: "length (bfill_series (ffill_series xs)) = length xs"
  by (simp add: length_bfill_series ffill_series_def length_ffill_from)

lemma ffill_from_Nil: "(ffill_from l xs = []) = (xs = [])"
  by (induction l xs rule: ffill_from.induct) simp_all

lemma bfill_series_Nil: "(bfill_series xs = []) = (xs = [])"
  by (induction xs rule: bfill_series.induct) simp_all

lemma ffill_from_keeps:
  "i < length xs \<Longrightarrow> xs ! i = Some v \<Longrightarrow> ffill_from l xs ! i = Some v"
proof (induction l xs arbitrary: i rule: ffill_from.induct)
  case (1 l)
  then show ?case by simp
next
  case (2 l xs)
  then show ?case by (cases i) simp_all
next
  case (3 l v xs)
  then show ?case by (cases i) simp_all
qed

lemma bfill_series_keeps:
  "i < length xs \<Longrightarrow> xs ! i = Some v \<Longrightarrow> bfill_series xs ! i = Some v"
proof (induction xs arbitrary: i rule: bfill_series.induct)
  case 1
  then show ?case by simp
next
  case (2 v xs)
  then show ?case by (cases i) simp_all
next
  case (3 xs)
  then show ?case by (cases i) simp_all
qed

lemma fill_keeps:
  assumes "i < length xs" and "xs ! i = Some v"
  shows "bfill_series (ffill_series xs) ! i = Some v"
proof -
  have "ffill_series xs ! i = Some v"
    unfolding ffill_series_def using assms by (rule ffill_from_keeps)
  moreover have "i < length (ffill_series xs)"
    using assms(1) by (simp add: ffill_series_def length_ffill_from)
  ultimately show ?thesis by (rule bfill_series_keeps[rotated])
qed

lemma ffill_from_no_gap: "l \<noteq> None \<Longrightarrow> None \<notin> set (ffill_from l xs)"
  by (induction l xs rule: ffill_from.induct) auto

lemma ffill_from_last: "Some v \<in> set xs \<Longrightarrow> last (ffill_from l xs) \<noteq> None"
proof (induction l xs rule: ffill_from.induct)
  case (1 l)
  then show ?case by simp
next
  case (2 l xs)
  then have "ffill_from l xs \<noteq> []" by (auto simp: ffill_from_Nil)
  with 2 show ?case by simp
next
  case (3 l w xs)
  show ?case
  proof (cases "xs = []")
    case True
    then show ?thesis by simp
  next
    case False
    then have ne: "ffill_from (Some w) xs \<noteq> []" by (simp add: ffill_from_Nil)
    have "None \<notin> set (ffill_from (Some w) xs)" by (rule ffill_from_no_gap) simp
    with ne have "last (ffill_from (Some w) xs) \<noteq> None"
      by (metis last_in_set)
    with ne show ?thesis by simp
  qed
qed

lemma bfill_series_gap: "None \<in> set (bfill_series xs) \<Longrightarrow> xs \<noteq> [] \<and> last xs = None"
proof (induction xs rule: bfill_series.induct)
  case 1
  then show ?case by simp
next
  case (2 v xs)
  then show ?case by auto
next
  case (3 xs)
  show ?case
  proof (cases "bfill_series xs")
    case Nil
    then have "xs = []" by (simp add: bfill_series_Nil)
    then show ?thesis by simp
  next
    case (Cons y ys)
    then have ne: "xs \<noteq> []" by auto
    from 3 Cons have "None \<in> set (bfill_series xs)" by auto
    with 3 ne show ?thesis by simp
  qed
qed

lemma fill_no_gap: "Some v \<in> set xs \<Longrightarrow> None \<notin> set (bfill_series (ffill_series xs))"
proof
  assume a: "Some v \<in> set xs" and b: "None \<in> set (bfill_series (ffill_series xs))"
  from b have "last (ffill_series xs) = None" by (simp add: bfill_series_gap)
  moreover from a have "last (ffill_series xs) \<noteq> None"
    unfolding ffill_series_def by (rule ffill_from_last)
  ultimately show False by simp
qed

subsection \<open>The shape of the tables\<close>

lemma sort_index_id:
  fixes t :: table
  assumes "sorted (index t)" and "rectangular t"
  shows "sort_index t = t"
proof -
  have "map (\<lambda>(l, vs). (l, map snd (sort_key fst (zip (index t) vs)))) (columns t) = columns t"
  proof (rule map_idI)
    fix c assume c: "c \<in> set (columns t)"
    obtain l vs where lv: "c = (l, vs)" by (cases c)
    with c assms(2) have len: "length vs = length (index t)" by (auto simp: rectangular_def)
    then have "map fst (zip (index t) vs) = index t" by simp
    with assms(1) have "sort_key fst (zip (index t) vs) = zip (index t) vs"
      by (simp add: sort_key_id_if_sorted)
    with len lv show "(case c of (l, vs) \<Rightarrow> (l, map snd (sort_key fst (zip (index t) vs)))) = c"
      by simp
  qed
  with assms(1) show ?thesis by (simp add: sort_index_def sorted_sort_id)
qed

lemma index_unstack: "index (unstack a) = sort (remdups (map (\<lambda>r. fst (fst r)) a))"
  by (simp add: unstack_def Let_def)

lemma rectangular_unstack: "rectangular (unstack a)"
  by (auto simp: rectangular_def unstack_def Let_def)

lemma index_dropna_all: "index (dropna_all t) = index t"
  by (simp add: dropna_all_def)

lemma columns_dropna_all:
  "set (columns (dropna_all t)) = {c \<in> set (columns t). \<exists>v\<in>set (snd c). v \<noteq> None}"
  by (auto simp: dropna_all_def)

lemma rectangular_dropna_all: "rectangular t \<Longrightarrow> rectangular (dropna_all t)"
  by (auto simp: rectangular_def dropna_all_def)

lemma index_fill: "index (ffill t) = index t" "index (bfill t) = index t"
  by (simp_all add: ffill_def bfill_def)

lemma columns_fill:
  "columns (bfill (ffill t)) = map (\<lambda>(l, vs). (l, bfill_series (ffill_series vs))) (columns t)"
  by (simp add: ffill_def bfill_def case_prod_unfold comp_def)

lemma pivot_table_shape:
  assumes "pivot_table df i c v = Inr t"
  shows "sorted (index t) \<and> distinct (index t) \<and> rectangular t \<and>
         (\<forall>col\<in>set (columns t). \<exists>x\<in>set (snd col). x \<noteq> None)"
proof -
  from assms obtain a where t: "t = dropna_all (unstack a)"
    by (auto simp: pivot_table_def Let_def split: option.splits sum.splits)
  show ?thesis unfolding t
    by (simp add: index_dropna_all index_unstack rectangular_dropna_all rectangular_unstack
        columns_dropna_all)
qed

lemma group_means_length: "group_means rows ks = Inr ms \<Longrightarrow> length ms = length ks"
  by (auto simp: group_means_def split: if_splits)

lemma collect_Inr: "collect xs = Inr ms \<Longrightarrow> xs = map Inr ms"
  by (induction xs arbitrary: ms) (auto split: sum.splits)

lemma groupby_mean_shape:
  assumes "groupby_mean df key = Inr t"
  shows "sorted (index t) \<and> distinct (index t) \<and> rectangular t"
proof -
  from assms obtain K ms where
    ms: "collect (map (\<lambda>(l, c). group_means (keyed K c) (sort (remdups (valid K))))
                   (drop_columns df key)) = Inr ms"
    and t: "t = \<lparr>index = sort (remdups (valid K)),
               columns = zip (map Str (labels (drop_columns df key))) ms\<rparr>"
    by (auto simp: groupby_mean_def Let_def split: option.splits sum.splits)
  from ms have eq: "map (\<lambda>(l, c). group_means (keyed K c) (sort (remdups (valid K))))
                      (drop_columns df key) = map Inr ms"
    by (rule collect_Inr)
  have "\<forall>m\<in>set ms. length m = length (sort (remdups (valid K)))"
  proof
    fix m assume "m \<in> set ms"
    then have "Inr m \<in> set (map (\<lambda>(l, c). group_means (keyed K c) (sort (remdups (valid K))))
                              (drop_columns df key))"
      unfolding eq by simp
    then obtain l c where "group_means (keyed K c) (sort (remdups (valid K))) = Inr m" by auto
    then show "length m = length (sort (remdups (valid K)))" by (rule group_means_length)
  qed
  then have "rectangular t" unfolding t rectangular_def
    by (auto dest!: set_zip_rightD)
  then show ?thesis by (simp add: t)
qed

lemma filled_columns:
  fixes p :: table
  assumes r: "rectangular p"
    and h: "\<forall>col\<in>set (columns p). \<exists>x\<in>set (snd col). x \<noteq> None"
    and c: "c \<in> set (columns (bfill (ffill p)))"
  shows "length (snd c) = length (index p) \<and> None \<notin> set (snd c) \<and> snd c \<noteq> []"
proof -
  from c obtain l vs where lv: "(l, vs) \<in> set (columns p)"
    and c': "c = (l, bfill_series (ffill_series vs))"
    unfolding columns_fill by auto
  from h lv obtain x where x: "Some x \<in> set vs" by fastforce
  then have "None \<notin> set (bfill_series (ffill_series vs))" by (rule fill_no_gap)
  moreover from r lv have "length vs = length (index p)" by (auto simp: rectangular_def)
  moreover from x have "vs \<noteq> []" by auto
  ultimately show ?thesis
    by (simp add: c' length_bfill_series length_ffill_from bfill_series_Nil ffill_series_def
        ffill_from_Nil)
qed

lemma load_long_shape:
  assumes "load_long df = Inr t"
  shows "sorted (index t) \<and> distinct (index t) \<and>
         (\<forall>c\<in>set (columns t). length (snd c) = length (index t) \<and> None \<notin> set (snd c) \<and> snd c \<noteq> [])"
proof -
  from assms obtain p where p: "pivot_table df ''SECONDS'' ''PID'' ''VALUE'' = Inr p"
    and t: "t = bfill (ffill (sort_index p))"
    by (auto simp: load_long_def split: sum.splits)
  from pivot_table_shape[OF p] have s: "sorted (index p)" and d: "distinct (index p)"
    and r: "rectangular p"
    and h: "\<forall>col\<in>set (columns p). \<exists>x\<in>set (snd col). x \<noteq> None" by auto
  from s r have t': "t = bfill (ffill p)" by (simp add: t sort_index_id)
  from filled_columns[OF r h] s d show ?thesis by (simp add: t' index_fill)
qed

lemma load_wide_shape:
  assumes "load_wide D df = Inr t"
  shows "sorted (index t) \<and> distinct (index t) \<and>
         (\<forall>c\<in>set (columns t). length (snd c) = length (index t) \<and> None \<notin> set (snd c) \<and> snd c \<noteq> [])"
proof -
  from assms obtain df4 g where g: "groupby_mean df4 ''SECONDS'' = Inr g"
    and t: "t = bfill (ffill (dropna_all (sort_index g)))"
    by (auto simp: load_wide_def Let_def split: option.splits sum.splits)
  from groupby_mean_shape[OF g] have s: "sorted (index g)" and d: "distinct (index g)"
    and r: "rectangular g" by auto
  from s r have t': "t = bfill (ffill (dropna_all g))" by (simp add: t sort_index_id)
  have r': "rectangular (dropna_all g)" using r by (rule rectangular_dropna_all)
  have h: "\<forall>col\<in>set (columns (dropna_all g)). \<exists>x\<in>set (snd col). x \<noteq> None"
    by (simp add: columns_dropna_all)
  from filled_columns[OF r' h] s d show ?thesis by (simp add: t' index_fill index_dropna_all)
qed

lemma load_data_shape:
  assumes "load_data D file = Inr (Some t)"
  shows "sorted (index t) \<and> distinct (index t) \<and>
         (\<forall>c\<in>set (columns t). length (snd c) = length (index t) \<and> None \<notin> set (snd c) \<and> snd c \<noteq> [])"
proof -
  from assms obtain df where l: "load_frame D df = Inr (Some t)"
    by (auto simp: load_data_def split: sum.splits)
  then have "load_long df = Inr t \<or> load_wide D df = Inr t"
    by (auto simp: load_frame_def map_sum_def split: if_splits sum.splits)
  then show ?thesis using load_long_shape load_wide_shape by blast
qed

subsection \<open>The examples, evaluated\<close>

lemma plain_simps:
  "na_token plain s = (s \<in> set na_values)"
  "csv_number plain = decimal"
  "csv_bool plain = truth"
  "to_number plain = decimal"
  by (simp_all add: plain_def)

lemmas token_defs = plain_simps na_values_def decimal_def unsigned_def digit_def truth_def

lemmas column_defs = convert_column_def read_number_def read_bool_def read_string_def

lemmas csv_defs = read_csv_def expected_fields_def retained_def pad_def upt_conv_Cons

lemmas frame_defs = load_data_def load_frame_def strip_columns_def strip_def isspace_def
  long_format_def wide_format_def labels_def

lemmas long_defs = load_long_def pivot_table_def pair_key_def group_means_def get_group_def mean_def
  unstack_def dropna_all_def sort_index_def ffill_def bfill_def ffill_series_def

lemmas wide_defs = load_wide_def truediv_def set_column_def drop_columns_def replace_value_def
  convert_sensors_def to_numeric_def groupby_mean_def group_means_def get_group_def mean_def
  dropna_all_def sort_index_def ffill_def bfill_def ffill_series_def

lemma gap_columns:
  "convert_column plain [''0'', ''1'', ''2''] = [Some (Num 0), Some (Num 1), Some (Num 2)]"
  "convert_column plain [''RPM'', ''Speed'', ''RPM''] =
     [Some (Str ''RPM''), Some (Str ''Speed''), Some (Str ''RPM'')]"
  "convert_column plain [''800'', ''45'', ''900''] =
     [Some (Num 800), Some (Num 45), Some (Num 900)]"
  by (simp_all add: column_defs token_defs)

lemma gap_frame:
  "read_csv plain gap_file =
     Inr [(''SECONDS'', [Some (Num 0), Some (Num 1), Some (Num 2)]),
          (''PID'', [Some (Str ''RPM''), Some (Str ''Speed''), Some (Str ''RPM'')]),
          (''VALUE'', [Some (Num 800), Some (Num 45), Some (Num 900)])]"
  by (simp add: gap_file_def csv_defs gap_columns)

lemma gap_table:
  "load_data plain gap_file =
     Inr (Some \<lparr>index = [Num 0, Num 1, Num 2],
                columns = [(Str ''RPM'', [Some 800, Some 800, Some 900]),
                           (Str ''Speed'', [Some 45, Some 45, Some 45])]\<rparr>)"
  by (simp add: frame_defs gap_frame long_defs)

lemma wide_columns:
  "convert_column plain [''1000'', ''2000''] = [Some (Num 1000), Some (Num 2000)]"
  "convert_column plain [''-'', ''45''] = [Some (Str ''-''), Some (Str ''45'')]"
  "convert_column plain [''800'', ''820''] = [Some (Num 800), Some (Num 820)]"
  by (simp_all add: column_defs token_defs)

lemma wide_frame:
  "read_csv plain wide_file =
     Inr [(''time(ms)'', [Some (Num 1000), Some (Num 2000)]),
          (''Speed'', [Some (Str ''-''), Some (Str ''45'')]),
          (''RPM'', [Some (Num 800), Some (Num 820)])]"
  by (simp add: wide_file_def csv_defs wide_columns)

lemma wide_table:
  "load_data plain wide_file =
     Inr (Some \<lparr>index = [Num 1, Num 2],
                columns = [(Str ''Speed'', [Some 45, Some 45]),
                           (Str ''RPM'', [Some 800, Some 820])]\<rparr>)"
  by (simp add: frame_defs wide_frame wide_defs token_defs)

subsection \<open>Claims\<close>

text \<open>
  C1. Whenever \<^verbatim>\<open>load_data\<close> returns a table, for the long format as for the wide
  one, the row keys are sorted (and no key occurs twice), and no column holds a missing
  cell: every column has one value per row key.
\<close>

theorem load_data_sorted_and_filled:
  assumes "load_data D file = Inr (Some t)"
  shows "sorted (index t) \<and> distinct (index t) \<and>
         (\<forall>c\<in>set (columns t). length (snd c) = length (index t) \<and> None \<notin> set (snd c))"
  using load_data_shape[OF assms] by simp

theorem load_data_sorted_and_filled_witness:
  "load_data plain gap_file =
     Inr (Some \<lparr>index = [Num 0, Num 1, Num 2],
                columns = [(Str ''RPM'', [Some 800, Some 800, Some 900]),
                           (Str ''Speed'', [Some 45, Some 45, Some 45])]\<rparr>) \<and>
   sorted [Num 0, Num 1, Num 2] \<and>
   None \<notin> set [Some (800::rat), Some 800, Some 900] \<and>
   None \<notin> set [Some (45::rat), Some 45, Some 45]"
  using load_data_sorted_and_filled[OF gap_table] gap_table by simp

lemma strip_plain:
  "strip ''SECONDS'' = ''SECONDS''"
  "strip ''PID'' = ''PID''"
  "strip ''VALUE'' = ''VALUE''"
  "strip ''time(ms)'' = ''time(ms)''"
  "strip ''t'' = ''t''"
  "strip ''rpm'' = ''rpm''"
  by (simp_all add: strip_def isspace_def)

lemma both_columns:
  "convert_column plain [''0'', ''1''] = [Some (Num 0), Some (Num 1)]"
  "convert_column plain [''RPM'', ''RPM''] = [Some (Str ''RPM''), Some (Str ''RPM'')]"
  "convert_column plain [''800'', ''900''] = [Some (Num 800), Some (Num 900)]"
  "convert_column plain [''5000'', ''7000''] = [Some (Num 5000), Some (Num 7000)]"
  by (simp_all add: column_defs token_defs)

lemma both_frame:
  "read_csv plain both_file =
     Inr [(''SECONDS'', [Some (Num 0), Some (Num 1)]),
          (''PID'', [Some (Str ''RPM''), Some (Str ''RPM'')]),
          (''VALUE'', [Some (Num 800), Some (Num 900)]),
          (''time(ms)'', [Some (Num 5000), Some (Num 7000)])]"
  by (simp add: both_file_def csv_defs both_columns)

text \<open>
  C9. When the columns SECONDS, PID and VALUE and the column time(ms) are all present,
  the file is loaded as the long format: the long format is tested first.
\<close>

theorem long_format_first:
  assumes "read_csv D file = Inr df"
    and "long_format (strip_columns df)"
    and "wide_format (strip_columns df)"
  shows "load_data D file = map_sum id Some (load_long (strip_columns df))"
  using assms by (simp add: load_data_def load_frame_def)

theorem long_format_first_witness:
  "load_data plain both_file =
     Inr (Some \<lparr>index = [Num 0, Num 1], columns = [(Str ''RPM'', [Some 800, Some 900])]\<rparr>)"
proof -
  let ?df = "[(''SECONDS'', [Some (Num 0), Some (Num 1)]),
              (''PID'', [Some (Str ''RPM''), Some (Str ''RPM'')]),
              (''VALUE'', [Some (Num 800), Some (Num 900)]),
              (''time(ms)'', [Some (Num 5000), Some (Num 7000)])]"
  have s: "strip_columns ?df = ?df" by (simp add: strip_columns_def strip_plain)
  have l: "long_format (strip_columns ?df)"
    unfolding s by (simp add: long_format_def labels_def)
  have w: "wide_format (strip_columns ?df)"
    unfolding s by (simp add: wide_format_def labels_def)
  have "load_long ?df =
          Inr \<lparr>index = [Num 0, Num 1], columns = [(Str ''RPM'', [Some 800, Some 900])]\<rparr>"
    by (simp add: long_defs)
  with long_format_first[OF both_frame l w] show ?thesis by (simp add: s)
qed





lemma status_columns:
  "convert_column plain [''0'', ''1''] = [Some (Num 0), Some (Num 1)]"
  "convert_column plain [''RPM'', ''Fuel Status''] =
     [Some (Str ''RPM''), Some (Str ''Fuel Status'')]"
  "convert_column plain [''800'', ''Closed Loop''] =
     [Some (Str ''800''), Some (Str ''Closed Loop'')]"
  by (simp_all add: column_defs token_defs)

lemma status_frame:
  "read_csv plain status_file =
     Inr [(''SECONDS'', [Some (Num 0), Some (Num 1)]),
          (''PID'', [Some (Str ''RPM''), Some (Str ''Fuel Status'')]),
          (''VALUE'', [Some (Str ''800''), Some (Str ''Closed Loop'')])]"
  by (simp add: status_file_def csv_defs status_columns)

text \<open>
  C2. The claim is that \<^verbatim>\<open>load_data\<close> never raises. In the long format a VALUE
  that is not a number (here the fuel system's status) makes the mean of
  \<^verbatim>\<open>pivot_table\<close> fail: the call raises a TypeError, where the wide format
  converts such a cell to NaN.
\<close>

theorem text_value_raises: "load_data plain status_file = Inl TypeError"
  by (simp add: frame_defs status_frame long_defs)







lemma replace_zero_nonzero: "replace_zero d \<noteq> Some 0"
  by (simp add: replace_zero_def)

lemma divisor_nonzero: "divisor vs \<noteq> Some 0"
  unfolding divisor_def by (rule replace_zero_nonzero)








lemma keyed_group:
  "get_group (keyed (map (\<lambda>(a, b). pair_key a b) (zip S P)) V) (s, p) =
     map (\<lambda>r. snd (snd r))
       (filter (\<lambda>r. fst r = Some s \<and> fst (snd r) = Some p) (zip S (zip P V)))"
proof (induction S arbitrary: P V)
  case Nil
  then show ?case by (simp add: get_group_def)
next
  case (Cons a S)
  show ?case
  proof (cases P)
    case Nil
    then show ?thesis by (simp add: get_group_def)
  next
    case P: (Cons b P')
    show ?thesis
    proof (cases V)
      case Nil
      then show ?thesis by (cases "pair_key a b") (simp_all add: get_group_def P)
    next
      case V: (Cons v V')
      from Cons[of P' V'] show ?thesis
        by (cases a; cases b) (auto simp: get_group_def P V pair_key_def)
    qed
  qed
qed

lemma group_means_Inr:
  "group_means rows ks = Inr ms \<Longrightarrow> ms = map (\<lambda>k. mean (map as_float (get_group rows k))) ks"
  by (auto simp: group_means_def split: if_splits)

lemma pivot_cell:
  assumes t: "pivot_table df i c v = Inr t"
    and S: "map_of df i = Some S" and P: "map_of df c = Some P" and V: "map_of df v = Some V"
    and d: "duplicates S P V s p \<noteq> []"
  shows "\<exists>k vs. k < length (index t) \<and> index t ! k = s \<and> map_of (columns t) p = Some vs \<and>
           length vs = length (index t) \<and>
           vs ! k = Some (sum_list (duplicates S P V s p) / of_nat (length (duplicates S P V s p)))"
proof -
  define rows where "rows = keyed (map (\<lambda>(a, b). pair_key a b) (zip S P)) V"
  define ks where "ks = remdups (map fst rows)"
  define f where "f = (\<lambda>k. mean (map as_float (get_group rows k)))"
  define a where "a = filter (\<lambda>r. snd r \<noteq> None) (map (\<lambda>k. (k, f k)) ks)"
  define \<mu> where "\<mu> = sum_list (duplicates S P V s p) / of_nat (length (duplicates S P V s p))"
  define g where "g = (\<lambda>p. map (\<lambda>s. case map_of a (s, p) of None \<Rightarrow> None | Some m \<Rightarrow> m)
                           (sort (remdups (map (\<lambda>r. fst (fst r)) a))))"
  from t S P V obtain ms where ms: "group_means rows ks = Inr ms"
    and t': "t = dropna_all (unstack (filter (\<lambda>r. snd r \<noteq> None) (zip ks ms)))"
    by (auto simp: pivot_table_def Let_def rows_def ks_def split: sum.splits)
  from group_means_Inr[OF ms] have "zip ks ms = map (\<lambda>k. (k, f k)) ks"
    by (simp add: f_def zip_map2 zip_same_conv_map)
  with t' have t'': "t = dropna_all (unstack a)" by (simp add: a_def)
  have v: "valid (map as_float (get_group rows (s, p))) = duplicates S P V s p"
    by (simp add: rows_def keyed_group duplicates_def comp_def)
  with d have fm: "f (s, p) = Some \<mu>" by (simp add: f_def mean_def \<mu>_def)
  from v d have "get_group rows (s, p) \<noteq> []" by auto
  then have "(s, p) \<in> set ks" by (force simp: get_group_def ks_def filter_empty_conv)
  with fm have mem: "((s, p), Some \<mu>) \<in> set a" by (auto simp: a_def)
  have "distinct (map fst a)"
    by (simp add: a_def ks_def comp_def distinct_map_filter)
  then have ma: "map_of a (s, p) = Some (Some \<mu>)" using mem by (rule map_of_is_SomeI)
  let ?idx = "sort (remdups (map (\<lambda>r. fst (fst r)) a))"
  let ?pids = "sort (remdups (map (\<lambda>r. snd (fst r)) a))"
  from mem have "s \<in> set ?idx" by force
  then obtain k where k: "k < length ?idx" "?idx ! k = s" unfolding in_set_conv_nth by blast
  from mem have pin: "p \<in> set ?pids" by force
  have cu: "columns (unstack a) = map (\<lambda>p. (p, g p)) ?pids"
    by (simp add: unstack_def g_def Let_def)
  have gk: "g p ! k = Some \<mu>" using k ma by (simp add: g_def)
  have "map_of (columns (unstack a)) p = Some (g p)"
    using pin by (simp add: cu map_of_map_restrict)
  moreover have "\<exists>x\<in>set (g p). x \<noteq> None"
  proof -
    have "k < length (g p)" using k by (simp add: g_def)
    then have "g p ! k \<in> set (g p)" by simp
    with gk show ?thesis by auto
  qed
  ultimately have "map_of (columns t) p = Some (g p)"
    unfolding t'' dropna_all_def by (simp add: map_of_filter_in)
  moreover have "index t = ?idx" by (simp add: t'' dropna_all_def unstack_def Let_def)
  moreover have "length (g p) = length ?idx" by (simp add: g_def)
  ultimately show ?thesis using k gk unfolding \<mu>_def by auto
qed

lemma map_of_fill:
  "map_of (columns (bfill (ffill t))) p = map_option (\<lambda>vs. bfill_series (ffill_series vs)) (map_of (columns t) p)"
  by (simp add: columns_fill map_of_map[unfolded comp_def])

lemma load_long_cell:
  assumes t: "load_long df = Inr t"
    and S: "map_of df ''SECONDS'' = Some S" and P: "map_of df ''PID'' = Some P"
    and V: "map_of df ''VALUE'' = Some V"
    and d: "duplicates S P V s p \<noteq> []"
  shows "loc t s p = Inr (Some (sum_list (duplicates S P V s p) / of_nat (length (duplicates S P V s p))))"
proof -
  from t obtain q where q: "pivot_table df ''SECONDS'' ''PID'' ''VALUE'' = Inr q"
    and t': "t = bfill (ffill (sort_index q))"
    by (auto simp: load_long_def split: sum.splits)
  from pivot_table_shape[OF q] have s: "sorted (index q)" and dq: "distinct (index q)"
    and r: "rectangular q" by auto
  from s r have t'': "t = bfill (ffill q)" by (simp add: t' sort_index_id)
  from pivot_cell[OF q S P V d] obtain k vs where k: "k < length (index q)" "index q ! k = s"
    and m: "map_of (columns q) p = Some vs" and len: "length vs = length (index q)"
    and c: "vs ! k = Some (sum_list (duplicates S P V s p) / of_nat (length (duplicates S P V s p)))"
    by blast
  let ?ws = "bfill_series (ffill_series vs)"
  have m': "map_of (columns t) p = Some ?ws" by (simp add: t'' map_of_fill m)
  have i: "index t = index q" by (simp add: t'' index_fill)
  have "map_of (zip (index q) ?ws) (index q ! k) = Some (?ws ! k)"
    using dq k len by (intro map_of_zip_nth) (simp_all add: length_fill)
  moreover have "?ws ! k = Some (sum_list (duplicates S P V s p) / of_nat (length (duplicates S P V s p)))"
    using k len c by (intro fill_keeps) simp_all
  ultimately show ?thesis using k by (simp add: loc_def m' i)
qed

lemma spec_columns:
  "convert_column plain [''0'', ''0'', ''1''] = [Some (Num 0), Some (Num 0), Some (Num 1)]"
  "convert_column plain [''RPM'', ''RPM'', ''RPM''] =
     [Some (Str ''RPM''), Some (Str ''RPM''), Some (Str ''RPM'')]"
  "convert_column plain [''800'', ''820'', ''900''] =
     [Some (Num 800), Some (Num 820), Some (Num 900)]"
  by (simp_all add: column_defs token_defs)

lemma spec_frame:
  "read_csv plain spec_file =
     Inr [(''SECONDS'', [Some (Num 0), Some (Num 0), Some (Num 1)]),
          (''PID'', [Some (Str ''RPM''), Some (Str ''RPM''), Some (Str ''RPM'')]),
          (''VALUE'', [Some (Num 800), Some (Num 820), Some (Num 900)])]"
  by (simp add: spec_file_def csv_defs spec_columns)

lemma spec_table:
  "load_data plain spec_file =
     Inr (Some \<lparr>index = [Num 0, Num 1], columns = [(Str ''RPM'', [Some 810, Some 900])]\<rparr>)"
  by (simp add: frame_defs spec_frame long_defs)

text \<open>
  C3. In the long format, the cell of the loaded table at a row key and a PID is the
  arithmetic mean of the VALUEs of the rows with that SECONDS and that PID (there is at
  least one such value). In particular the rows (0, RPM, 800), (0, RPM, 820),
  (1, RPM, 900) give the column RPM with 810 at 0 and 900 at 1.
\<close>

theorem long_cell_is_mean:
  assumes "read_csv D file = Inr df"
    and "map_of (strip_columns df) ''SECONDS'' = Some S"
    and "map_of (strip_columns df) ''PID'' = Some P"
    and "map_of (strip_columns df) ''VALUE'' = Some V"
    and "load_data D file = Inr (Some t)"
    and "duplicates S P V s p \<noteq> []"
  shows "loc t s p =
           Inr (Some (sum_list (duplicates S P V s p) / of_nat (length (duplicates S P V s p)))) \<and>
         load_data plain spec_file =
           Inr (Some \<lparr>index = [Num 0, Num 1],
                      columns = [(Str ''RPM'', [Some 810, Some 900])]\<rparr>)"
proof -
  have "long_format (strip_columns df)"
    using assms(2-4) by (auto simp: long_format_def labels_def dest!: map_of_SomeD intro: rev_image_eqI)
  with assms(1,5) have "load_long (strip_columns df) = Inr t"
    by (auto simp: load_data_def load_frame_def map_sum_def split: sum.splits)
  from load_long_cell[OF this assms(2-4,6)] spec_table show ?thesis by simp
qed

theorem long_cell_is_mean_witness:
  "load_data plain spec_file =
     Inr (Some \<lparr>index = [Num 0, Num 1], columns = [(Str ''RPM'', [Some 810, Some 900])]\<rparr>) \<and>
   duplicates [Some (Num 0), Some (Num 0), Some (Num 1)]
     [Some (Str ''RPM''), Some (Str ''RPM''), Some (Str ''RPM'')]
     [Some (Num 800), Some (Num 820), Some (Num 900)] (Num 0) (Str ''RPM'') = [800, 820] \<and>
   loc \<lparr>index = [Num 0, Num 1], columns = [(Str ''RPM'', [Some 810, Some 900])]\<rparr>
     (Num 0) (Str ''RPM'') = Inr (Some 810) \<and>
   loc \<lparr>index = [Num 0, Num 1], columns = [(Str ''RPM'', [Some 810, Some 900])]\<rparr>
     (Num 1) (Str ''RPM'') = Inr (Some 900)"
proof -
  let ?S = "[Some (Num 0), Some (Num 0), Some (Num 1)]"
  let ?P = "[Some (Str ''RPM''), Some (Str ''RPM''), Some (Str ''RPM'')]"
  let ?V = "[Some (Num 800), Some (Num 820), Some (Num 900)]"
  let ?df = "[(''SECONDS'', ?S), (''PID'', ?P), (''VALUE'', ?V)]"
  have s: "strip_columns ?df = ?df" by (simp add: strip_columns_def strip_plain)
  have c: "map_of (strip_columns ?df) ''SECONDS'' = Some ?S"
    "map_of (strip_columns ?df) ''PID'' = Some ?P"
    "map_of (strip_columns ?df) ''VALUE'' = Some ?V"
    unfolding s by simp_all
  have d0: "duplicates ?S ?P ?V (Num 0) (Str ''RPM'') = [800, 820]"
    and d1: "duplicates ?S ?P ?V (Num 1) (Str ''RPM'') = [900]"
    by (simp_all add: duplicates_def)
  have n0: "duplicates ?S ?P ?V (Num 0) (Str ''RPM'') \<noteq> []"
    and n1: "duplicates ?S ?P ?V (Num 1) (Str ''RPM'') \<noteq> []"
    by (simp_all add: d0 d1)
  from long_cell_is_mean[OF spec_frame c spec_table n0]
    long_cell_is_mean[OF spec_frame c spec_table n1] spec_table d0 d1
  show ?thesis by simp
qed

subsection \<open>The wide format, explicitly\<close>

lemma truediv_seconds:
  "truediv ms 1000 = (if \<exists>x\<in>set ms. is_text x then Inl TypeError else Inr (map seconds_key ms))"
  by (simp add: truediv_def seconds_key_def)

lemma filter_set_column:
  "filter (\<lambda>(l, c). l \<noteq> k) (set_column df k v) = filter (\<lambda>(l, c). l \<noteq> k) df"
proof -
  have "filter (\<lambda>(l, c). l \<noteq> k) (map (\<lambda>(l', c'). if l' = k then (l', v) else (l', c')) df) =
        filter (\<lambda>(l, c). l \<noteq> k) df"
    by (induction df) auto
  then show ?thesis by (simp add: set_column_def)
qed

lemma map_of_set_column: "map_of (set_column df k v) k = Some v"
proof (cases "k \<in> set (labels df)")
  case True
  then have "map_of (map (\<lambda>(l', c'). if l' = k then (l', v) else (l', c')) df) k = Some v"
    by (induction df) (auto simp: labels_def)
  with True show ?thesis by (simp add: set_column_def)
next
  case False
  then have "map_of df k = None" by (simp add: labels_def map_of_eq_None_iff)
  with False show ?thesis by (simp add: set_column_def map_add_def)
qed

lemma seconds_key_not_text: "\<not> is_text (seconds_key x)"
  by (cases x rule: as_float.cases) (simp_all add: seconds_key_def)

lemma seconds_key_not_str: "seconds_key x \<noteq> Some (Str s)"
  by (cases x rule: as_float.cases) (simp_all add: seconds_key_def)

lemma dash_seconds:
  "map (\<lambda>x. if x = Some (Str s) then None else x) (map seconds_key ms) = map seconds_key ms"
  by (simp add: seconds_key_not_str)

lemma map_of_drop_columns: "k \<noteq> l \<Longrightarrow> map_of (drop_columns df l) k = map_of df k"
  by (induction df) (auto simp: drop_columns_def)

lemma map_of_replace_value:
  "map_of (replace_value df s) k = map_option (map (\<lambda>x. if x = Some (Str s) then None else x)) (map_of df k)"
  by (induction df) (auto simp: replace_value_def)

lemma map_of_convert_sensors_key: "map_of (convert_sensors D df) ''SECONDS'' = map_of df ''SECONDS''"
  by (induction df) (auto simp: convert_sensors_def)

lemma prepared_key: "map_of (prepared D df (map seconds_key ms)) ''SECONDS'' = Some (map seconds_key ms)"
  by (simp add: prepared_def map_of_convert_sensors_key map_of_replace_value map_of_drop_columns
      map_of_set_column seconds_key_not_str)

lemma prepared_sensors:
  "drop_columns (prepared D df secs) ''SECONDS'' =
     map (\<lambda>(l, c). (l, to_numeric D (map (\<lambda>x. if x = Some (Str ''-'') then None else x) c)))
       (filter (\<lambda>(l, c). l \<noteq> ''SECONDS'' \<and> l \<noteq> ''time(ms)'') df)"
proof -
  have a: "filter (\<lambda>(l, c). l \<noteq> ''SECONDS'') (convert_sensors D xs) =
           map (\<lambda>(l, c). (l, to_numeric D c)) (filter (\<lambda>(l, c). l \<noteq> ''SECONDS'') xs)" for xs
    by (induction xs) (auto simp: convert_sensors_def)
  have b: "filter (\<lambda>(l, c). l \<noteq> ''SECONDS'') (replace_value xs s) =
           replace_value (filter (\<lambda>(l, c). l \<noteq> ''SECONDS'') xs) s" for xs s
    by (induction xs) (auto simp: replace_value_def)
  have c: "filter (\<lambda>(l, c). l \<noteq> ''SECONDS'') (drop_columns xs ''time(ms)'') =
           filter (\<lambda>(l, c). l \<noteq> ''time(ms)'') (filter (\<lambda>(l, c). l \<noteq> ''SECONDS'') xs)" for xs :: frame
    by (induction xs) (auto simp: drop_columns_def)
  have d: "filter (\<lambda>(l, c). l \<noteq> ''time(ms)'') (filter (\<lambda>(l, c). l \<noteq> ''SECONDS'') xs) =
           filter (\<lambda>(l, c). l \<noteq> ''SECONDS'' \<and> l \<noteq> ''time(ms)'') xs" for xs :: frame
    by (induction xs) auto
  have "drop_columns (prepared D df secs) ''SECONDS'' =
        map (\<lambda>(l, c). (l, to_numeric D c))
          (replace_value (filter (\<lambda>(l, c). l \<noteq> ''SECONDS'' \<and> l \<noteq> ''time(ms)'') df) ''-'')"
    unfolding prepared_def drop_columns_def[of _ "''SECONDS''"] a b c d filter_set_column ..
  then show ?thesis by (simp add: replace_value_def case_prod_unfold comp_def)
qed

lemma keyed_map: "keyed K (map f c) = map (\<lambda>r. (fst r, f (snd r))) (keyed K c)"
  by (induction K c rule: keyed.induct) simp_all

lemma group_map: "get_group (map (\<lambda>r. (fst r, f (snd r))) rows) k = map f (get_group rows k)"
  by (induction rows) (auto simp: get_group_def)

lemma coerce_not_text: "\<not> is_text (coerce D x)"
proof (cases x)
  case None
  then show ?thesis by simp
next
  case (Some s)
  then show ?thesis by (cases s) (auto simp: map_option_case split: option.splits)
qed

lemma sensor_group_means:
  "group_means (keyed secs (to_numeric D (map (\<lambda>x. if x = Some (Str ''-'') then None else x) c))) idx =
     Inr (map (\<lambda>k. mean (map (sensor_value D) (get_group (keyed secs c) k))) idx)"
proof -
  let ?f = "\<lambda>x. coerce D (if x = Some (Str ''-'') then None else x)"
  have k: "keyed secs (to_numeric D (map (\<lambda>x. if x = Some (Str ''-'') then None else x) c)) =
           map (\<lambda>r. (fst r, ?f (snd r))) (keyed secs c)"
    by (simp add: to_numeric_def keyed_map)
  have s: "as_float (?f x) = sensor_value D x" for x
    by (simp add: sensor_value_def)
  show ?thesis
    unfolding k group_means_def
    by (simp add: coerce_not_text group_map[of ?f] comp_def s del: coerce.simps)
qed

lemma collect_map_Inr: "collect (map (\<lambda>x. Inr (f x)) xs) = Inr (map f xs)"
  by (induction xs) simp_all

lemma load_wide_explicit:
  assumes "map_of df ''time(ms)'' = Some ms"
  shows "load_wide D df =
           (if \<exists>x\<in>set ms. is_text x then Inl TypeError
            else Inr (bfill (ffill (dropna_all (wide_groups D df ms)))))"
proof (cases "\<exists>x\<in>set ms. is_text x")
  case True
  with assms show ?thesis by (simp add: load_wide_def truediv_seconds)
next
  case False
  let ?secs = "map seconds_key ms"
  let ?idx = "sort (remdups (valid ?secs))"
  let ?df4 = "prepared D df ?secs"
  let ?sensors = "filter (\<lambda>(l, c). l \<noteq> ''SECONDS'' \<and> l \<noteq> ''time(ms)'') df"
  have "map (\<lambda>(l, c). group_means (keyed ?secs c) ?idx) (drop_columns ?df4 ''SECONDS'') =
        map (\<lambda>x. Inr (map (wide_mean D ms (snd x)) ?idx)) ?sensors"
    by (simp add: prepared_sensors case_prod_unfold comp_def sensor_group_means wide_mean_def)
  then have c: "collect (map (\<lambda>(l, c). group_means (keyed ?secs c) ?idx) (drop_columns ?df4 ''SECONDS'')) =
        Inr (map (\<lambda>x. map (wide_mean D ms (snd x)) ?idx) ?sensors)"
    by (simp only: collect_map_Inr)
  have l: "labels (drop_columns ?df4 ''SECONDS'') =
           map fst (filter (\<lambda>(l, c). l \<noteq> ''SECONDS'' \<and> l \<noteq> ''time(ms)'') df)"
    by (simp add: prepared_sensors labels_def case_prod_unfold comp_def)
  have z: "zip (map (Str \<circ> fst) ?sensors) (map (\<lambda>x. map (wide_mean D ms (snd x)) ?idx) ?sensors) =
           map (\<lambda>(l, c). (Str l, map (wide_mean D ms c) ?idx)) ?sensors"
    by (simp add: zip_map_map zip_same_conv_map case_prod_unfold)
  have g: "groupby_mean ?df4 ''SECONDS'' = Inr (wide_groups D df ms)"
    by (simp add: groupby_mean_def prepared_key Let_def c l wide_groups_def z)
  have "sorted (index (wide_groups D df ms))" and "rectangular (wide_groups D df ms)"
    by (auto simp: wide_groups_def rectangular_def Let_def)
  then have "sort_index (wide_groups D df ms) = wide_groups D df ms" by (rule sort_index_id)
  with assms False g show ?thesis
    by (simp add: load_wide_def truediv_seconds Let_def prepared_def)
qed

lemma load_data_wide:
  assumes "read_csv D file = Inr df"
    and "\<not> long_format (strip_columns df)"
    and "load_data D file = Inr (Some t)"
  shows "\<exists>ms. map_of (strip_columns df) ''time(ms)'' = Some ms \<and> \<not> (\<exists>x\<in>set ms. is_text x) \<and>
              t = bfill (ffill (dropna_all (wide_groups D (strip_columns df) ms)))"
proof -
  from assms(1,3) have f: "load_frame D (strip_columns df) = Inr (Some t)"
    by (simp add: load_data_def)
  with assms(2) have w: "wide_format (strip_columns df)"
    by (cases "wide_format (strip_columns df)") (simp_all add: load_frame_def)
  with f assms(2) have l: "load_wide D (strip_columns df) = Inr t"
    by (cases "load_wide D (strip_columns df)") (simp_all add: load_frame_def)
  from w have "''time(ms)'' \<in> fst ` set (strip_columns df)"
    by (simp add: wide_format_def labels_def)
  then obtain ms where ms: "map_of (strip_columns df) ''time(ms)'' = Some ms"
    by (metis domD dom_map_of_conv_image_fst)
  have "load_wide D (strip_columns df) =
           (if \<exists>x\<in>set ms. is_text x then Inl TypeError
            else Inr (bfill (ffill (dropna_all (wide_groups D (strip_columns df) ms)))))"
    using ms by (rule load_wide_explicit)
  with l have "\<not> (\<exists>x\<in>set ms. is_text x) \<and>
              t = bfill (ffill (dropna_all (wide_groups D (strip_columns df) ms)))"
    by (cases "\<exists>x\<in>set ms. is_text x") simp_all
  with ms show ?thesis by blast
qed










lemma strip_more:
  "strip ''Fuel'' = ''Fuel''" "strip ''RPM'' = ''RPM''" "strip ''Speed'' = ''Speed''"
  by (simp_all add: strip_def isspace_def)




lemma last_valid_Cons:
  "last_valid (x # xs) = (case last_valid xs of Some v \<Rightarrow> Some v | None \<Rightarrow> x)"
  by (cases x) (simp_all add: last_valid_def)

lemma first_valid_Cons:
  "first_valid (x # xs) = (case x of Some v \<Rightarrow> Some v | None \<Rightarrow> first_valid xs)"
  by (cases x) (simp_all add: first_valid_def)

lemma first_valid_Nil: "first_valid [] = None"
  by (simp add: first_valid_def)

lemma last_valid_Nil: "last_valid [] = None"
  by (simp add: last_valid_def)

lemma fill_from_nth:
  "i < length xs \<Longrightarrow>
   bfill_series (ffill_from l xs) ! i =
     (case last_valid (take (Suc i) xs) of
        Some v \<Rightarrow> Some v
      | None \<Rightarrow> (case l of Some w \<Rightarrow> Some w | None \<Rightarrow> first_valid (drop (Suc i) xs)))"
proof (induction xs arbitrary: l i)
  case Nil
  then show ?case by simp
next
  case (Cons x xs)
  show ?case
  proof (cases i)
    case (Suc j)
    with Cons.prems have j: "j < length xs" by simp
    show ?thesis
    proof (cases x)
      case None
      with Suc Cons.IH[OF j, of l] show ?thesis
        by (auto simp: last_valid_Cons split: option.splits)
    next
      case (Some v)
      with Suc Cons.IH[OF j, of "Some v"] show ?thesis
        by (auto simp: last_valid_Cons split: option.splits)
    qed
  next
    case 0
    show ?thesis
    proof (cases x)
      case (Some v)
      with 0 show ?thesis by (simp add: last_valid_Cons last_valid_Nil)
    next
      case None
      show ?thesis
      proof (cases l)
        case (Some w)
        with None 0 show ?thesis by (simp add: last_valid_Cons last_valid_Nil)
      next
        case l: None
        show ?thesis
        proof (cases xs)
          case Nil
          with None l 0 show ?thesis
            by (simp add: last_valid_Cons last_valid_Nil first_valid_Nil)
        next
          case (Cons y ys)
          then have "0 < length xs" by simp
          from Cons.IH[OF this, of None] Cons
          have h: "bfill_series (ffill_from None xs) ! 0 =
                (case y of Some v \<Rightarrow> Some v | None \<Rightarrow> first_valid ys)"
            by (simp add: last_valid_Cons last_valid_Nil split: option.splits)
          have ne: "bfill_series (ffill_from None xs) \<noteq> []"
            using Cons by (simp add: bfill_series_Nil ffill_from_Nil)
          then obtain z zs where z: "bfill_series (ffill_from None xs) = z # zs"
            by (cases "bfill_series (ffill_from None xs)") auto
          with h have "z = (case y of Some v \<Rightarrow> Some v | None \<Rightarrow> first_valid ys)" by simp
          with None l 0 z Cons show ?thesis
            by (simp add: last_valid_Cons last_valid_Nil first_valid_Cons)
        qed
      qed
    qed
  qed
qed

lemma fill_nearest_nth:
  "i < length xs \<Longrightarrow> bfill_series (ffill_series xs) ! i = nearest_fill xs i"
  by (simp add: ffill_series_def fill_from_nth nearest_fill_def split: option.splits)

lemma fill_nearest:
  "bfill_series (ffill_series xs) = map (nearest_fill xs) [0..<length xs]"
  by (rule nth_equalityI) (simp_all add: length_fill fill_nearest_nth)


lemma columns_wide_groups:
  "columns (wide_groups D df ms) =
     map (\<lambda>x. (Str (fst x), map (wide_mean D ms (snd x)) (index (wide_groups D df ms))))
       (filter (\<lambda>x. fst x \<noteq> ''SECONDS'' \<and> fst x \<noteq> ''time(ms)'') df)"
  by (simp add: wide_groups_def Let_def case_prod_unfold)

lemma index_wide_groups: "index (wide_groups D df ms) = sort (remdups (valid (map seconds_key ms)))"
  by (simp add: wide_groups_def Let_def)

lemma wide_table_explicit:
  fixes df :: frame
  assumes t: "t = bfill (ffill (dropna_all (wide_groups D df ms)))"
  shows "index t = sort (remdups (valid (map seconds_key ms))) \<and>
         columns t =
           map (\<lambda>x. (Str (fst x),
                      map (nearest_fill (map (wide_mean D ms (snd x)) (index t)))
                        [0..<length (index t)]))
             (filter (\<lambda>x. (fst x \<noteq> ''SECONDS'' \<and> fst x \<noteq> ''time(ms)'') \<and>
                           (\<exists>k\<in>set (index t). wide_mean D ms (snd x) k \<noteq> None)) df)"
proof -
  let ?G = "wide_groups D df ms"
  let ?h = "\<lambda>x. (Str (fst x), map (wide_mean D ms (snd x)) (index ?G))"
  have i: "index t = index ?G" by (simp add: t index_fill index_dropna_all)
  have "columns (dropna_all ?G) =
          map ?h (filter (\<lambda>x. \<exists>k\<in>set (index ?G). wide_mean D ms (snd x) k \<noteq> None)
                   (filter (\<lambda>x. fst x \<noteq> ''SECONDS'' \<and> fst x \<noteq> ''time(ms)'') df))"
    unfolding dropna_all_def columns_wide_groups
    by (simp add: filter_map comp_def case_prod_unfold)
  then have "columns t =
          map (\<lambda>x. (Str (fst x), bfill_series (ffill_series (map (wide_mean D ms (snd x)) (index ?G)))))
            (filter (\<lambda>x. (fst x \<noteq> ''SECONDS'' \<and> fst x \<noteq> ''time(ms)'') \<and>
                          (\<exists>k\<in>set (index ?G). wide_mean D ms (snd x) k \<noteq> None)) df)"
    unfolding t columns_fill by (simp add: comp_def case_prod_unfold)
  then show ?thesis
    unfolding i by (simp add: fill_nearest index_wide_groups)
qed

lemma dash_missing: "sensor_value D (Some (Str ''-'')) = None"
  by (simp add: sensor_value_def)

text \<open>
  C5. In the wide format the row keys of the loaded table are the values of time(ms)
  divided by 1000 (sorted, each once); a placeholder \<^verbatim>\<open>-\<close> is a missing value; a
  column of the table is the column of the means by row key, filled forward and then
  backward: each cell holds the nearest value at or before its row, and when there is
  none, the nearest value after it. In particular the rows (1000, -, 800) and
  (2000, 45, 820) give Speed 45 at 1.0, filled backward, and 45 at 2.0.
\<close>

theorem wide_keys_and_fill:
  assumes "read_csv D file = Inr df"
    and "\<not> long_format (strip_columns df)"
    and "load_data D file = Inr (Some t)"
    and "map_of (strip_columns df) ''time(ms)'' = Some ms"
  shows "index t = sort (remdups (valid (map seconds_key ms))) \<and>
         columns t =
           map (\<lambda>x. (Str (fst x),
                      map (nearest_fill (map (wide_mean D ms (snd x)) (index t)))
                        [0..<length (index t)]))
             (filter (\<lambda>x. (fst x \<noteq> ''SECONDS'' \<and> fst x \<noteq> ''time(ms)'') \<and>
                           (\<exists>k\<in>set (index t). wide_mean D ms (snd x) k \<noteq> None))
                (strip_columns df)) \<and>
         sensor_value D (Some (Str ''-'')) = None \<and>
         load_data plain wide_file =
           Inr (Some \<lparr>index = [Num 1, Num 2],
                      columns = [(Str ''Speed'', [Some 45, Some 45]),
                                 (Str ''RPM'', [Some 800, Some 820])]\<rparr>)"
proof -
  from load_data_wide[OF assms(1-3)] assms(4)
  have "t = bfill (ffill (dropna_all (wide_groups D (strip_columns df) ms)))" by auto
  from wide_table_explicit[OF this] dash_missing wide_table show ?thesis by simp
qed

theorem wide_keys_and_fill_witness:
  "load_data plain wide_file =
     Inr (Some \<lparr>index = [Num 1, Num 2],
                columns = [(Str ''Speed'', [Some 45, Some 45]),
                           (Str ''RPM'', [Some 800, Some 820])]\<rparr>) \<and>
   map seconds_key [Some (Num 1000), Some (Num 2000)] = [Some (Num 1), Some (Num 2)] \<and>
   [Num 1, Num 2] = sort (remdups (valid (map seconds_key [Some (Num 1000), Some (Num 2000)]))) \<and>
   sensor_value plain (Some (Str ''-'')) = None \<and>
   nearest_fill [None, Some (45::rat)] 0 = Some 45 \<and>
   nearest_fill [None, Some (45::rat)] 1 = Some 45"
proof -
  let ?ms = "[Some (Num 1000), Some (Num 2000)]"
  let ?df = "[(''time(ms)'', ?ms),
              (''Speed'', [Some (Str ''-''), Some (Str ''45'')]),
              (''RPM'', [Some (Num 800), Some (Num 820)])]"
  have s: "strip_columns ?df = ?df" by (simp add: strip_columns_def strip_plain strip_more)
  have l: "\<not> long_format (strip_columns ?df)"
    unfolding s by (simp add: long_format_def labels_def)
  have m: "map_of (strip_columns ?df) ''time(ms)'' = Some ?ms" unfolding s by simp
  have k: "map seconds_key ?ms = [Some (Num 1), Some (Num 2)]" by (simp add: seconds_key_def)
  have n: "nearest_fill [None, Some (45::rat)] 0 = Some 45"
    "nearest_fill [None, Some (45::rat)] 1 = Some 45"
    by (simp_all add: nearest_fill_def last_valid_def first_valid_def)
  from wide_keys_and_fill[OF wide_frame l wide_table m] have
    "index \<lparr>index = [Num 1, Num 2],
                columns = [(Str ''Speed'', [Some 45, Some 45]),
                           (Str ''RPM'', [Some 800, Some 820])]\<rparr> = sort (remdups (valid (map seconds_key ?ms)))"
    and "sensor_value plain (Some (Str ''-'')) = None" by blast+
  with wide_table k n show ?thesis by simp
qed

lemma keyed_Nil2: "keyed K [] = []"
proof (cases K)
  case Nil
  then show ?thesis by simp
next
  case (Cons k K')
  then show ?thesis by (cases k) simp_all
qed

lemma keyed_self_text: "(\<exists>x\<in>set (map snd (keyed K K)). is_text x) = (\<exists>x\<in>set K. is_text x)"
proof (induction K)
  case Nil
  then show ?case by simp
next
  case (Cons k K)
  then show ?case by (cases k) auto
qed

lemma keyed_keyed:
  assumes "\<forall>x\<in>set K. (f x = None) = (x = None)"
  shows "keyed (map f (map snd (keyed K K))) (map snd (keyed K c)) = keyed (map f K) c"
  using assms
proof (induction K arbitrary: c)
  case Nil
  then show ?case by simp
next
  case (Cons k K)
  show ?case
  proof (cases c)
    case Nil
    then show ?thesis by (simp add: keyed_Nil2)
  next
    case c: (Cons v c')
    from Cons.prems have K: "\<forall>x\<in>set K. (f x = None) = (x = None)" by simp
    show ?thesis
    proof (cases k)
      case None
      with Cons.prems have "f None = None" by simp
      with None c Cons.IH[OF K, of c'] show ?thesis by simp
    next
      case (Some a)
      with Cons.prems have "f (Some a) \<noteq> None" by simp
      then obtain b where "f (Some a) = Some b" by (cases "f (Some a)") auto
      with Some c Cons.IH[OF K, of c'] show ?thesis by simp
    qed
  qed
qed

lemma valid_map_keyed:
  assumes "\<forall>x\<in>set K. (f x = None) = (x = None)"
  shows "valid (map f (map snd (keyed K K))) = valid (map f K)"
  using assms
proof (induction K)
  case Nil
  then show ?case by simp
next
  case (Cons k K)
  then have IH: "valid (map f (map snd (keyed K K))) = valid (map f K)" by simp
  show ?case
  proof (cases k)
    case None
    with Cons.prems have "f None = None" by simp
    with None IH show ?thesis by simp
  next
    case (Some a)
    with IH show ?thesis by (cases "f (Some a)") simp_all
  qed
qed

lemma seconds_key_None: "\<not> is_text x \<Longrightarrow> (seconds_key x = None) = (x = None)"
  by (cases x rule: as_float.cases) (simp_all add: seconds_key_def)

lemma dropna_subset_Some:
  "map_of df key = Some K \<Longrightarrow>
   dropna_subset df key = map (\<lambda>x. (fst x, map snd (keyed K (snd x)))) df"
  by (simp add: dropna_subset_def case_prod_unfold)

lemma map_of_dropna_subset:
  assumes "map_of df key = Some K"
  shows "map_of (dropna_subset df key) key = Some (map snd (keyed K K))"
proof -
  have "map_of (map (\<lambda>x. (fst x, map snd (keyed K (snd x)))) df) key =
        map_option (\<lambda>c. map snd (keyed K c)) (map_of df key)"
    by (induction df) auto
  with assms show ?thesis by (simp add: dropna_subset_Some)
qed

lemma wide_groups_dropna:
  assumes m: "map_of df ''time(ms)'' = Some ms"
    and n: "\<not> (\<exists>x\<in>set ms. is_text x)"
  shows "wide_groups D (dropna_subset df ''time(ms)'') (map snd (keyed ms ms)) =
         wide_groups D df ms"
proof -
  let ?ms' = "map snd (keyed ms ms)"
  let ?g = "\<lambda>x. (fst x, map snd (keyed ms (snd x)))"
  let ?P = "\<lambda>x. fst x \<noteq> ''SECONDS'' \<and> fst x \<noteq> ''time(ms)''"
  from n have k: "\<forall>x\<in>set ms. (seconds_key x = None) = (x = None)"
    by (simp add: seconds_key_None)
  have v: "valid (map seconds_key ?ms') = valid (map seconds_key ms)"
    using k by (rule valid_map_keyed)
  have w: "wide_mean D ?ms' (map snd (keyed ms c)) = wide_mean D ms c" for c
    by (rule ext) (simp only: wide_mean_def keyed_keyed[OF k])
  have f: "filter ?P (map ?g df) = map ?g (filter ?P df)"
    by (simp add: filter_map comp_def)
  from v have v': "valid (map (\<lambda>x. seconds_key (snd x)) (keyed ms ms)) = valid (map seconds_key ms)"
    by (simp add: comp_def)
  show ?thesis
    by (simp add: wide_groups_def Let_def dropna_subset_Some[OF m] case_prod_unfold v' f w comp_def)
qed

lemma load_wide_dropna:
  assumes "map_of df ''time(ms)'' = Some ms"
  shows "load_wide D (dropna_subset df ''time(ms)'') = load_wide D df"
proof -
  let ?ms' = "map snd (keyed ms ms)"
  have t: "(\<exists>x\<in>set ?ms'. is_text x) = (\<exists>x\<in>set ms. is_text x)" by (rule keyed_self_text)
  have m': "map_of (dropna_subset df ''time(ms)'') ''time(ms)'' = Some ?ms'"
    using assms by (rule map_of_dropna_subset)
  show ?thesis
  proof (cases "\<exists>x\<in>set ms. is_text x")
    case True
    then show ?thesis
      unfolding load_wide_explicit[OF m'] load_wide_explicit[OF assms] t by simp
  next
    case False
    with wide_groups_dropna[OF assms, of D] show ?thesis
      unfolding load_wide_explicit[OF m'] load_wide_explicit[OF assms] t by simp
  qed
qed

lemma untimed_columns:
  "convert_column plain [''1000'', [], ''2000''] = [Some (Num 1000), None, Some (Num 2000)]"
  "convert_column plain [''800'', ''999'', ''820''] = [Some (Num 800), Some (Num 999), Some (Num 820)]"
  by (simp_all add: column_defs token_defs)

lemma untimed_frame:
  "read_csv plain untimed_file =
     Inr [(''time(ms)'', [Some (Num 1000), None, Some (Num 2000)]),
          (''RPM'', [Some (Num 800), Some (Num 999), Some (Num 820)])]"
  by (simp add: untimed_file_def csv_defs untimed_columns)

text \<open>
  C10. In the wide format a row whose time(ms) cell is missing has no part in the
  loaded table: loading the file gives what loading it gives once these rows are
  removed from the frame (the same table, or the same error).
\<close>

theorem untimed_rows_excluded:
  assumes "read_csv D file = Inr df"
    and "\<not> long_format (strip_columns df)"
    and "wide_format (strip_columns df)"
  shows "load_data D file =
           map_sum id Some (load_wide D (dropna_subset (strip_columns df) ''time(ms)''))"
proof -
  from assms(3) have "''time(ms)'' \<in> fst ` set (strip_columns df)"
    by (simp add: wide_format_def labels_def)
  then obtain ms where "map_of (strip_columns df) ''time(ms)'' = Some ms"
    by (metis domD dom_map_of_conv_image_fst)
  then have "load_wide D (dropna_subset (strip_columns df) ''time(ms)'') =
             load_wide D (strip_columns df)"
    by (rule load_wide_dropna)
  with assms show ?thesis by (simp add: load_data_def load_frame_def)
qed

theorem untimed_rows_excluded_witness:
  "dropna_subset [(''time(ms)'', [Some (Num 1000), None, Some (Num 2000)]),
                  (''RPM'', [Some (Num 800), Some (Num 999), Some (Num 820)])] ''time(ms)'' =
     [(''time(ms)'', [Some (Num 1000), Some (Num 2000)]),
      (''RPM'', [Some (Num 800), Some (Num 820)])] \<and>
   load_data plain untimed_file =
     Inr (Some \<lparr>index = [Num 1, Num 2], columns = [(Str ''RPM'', [Some 800, Some 820])]\<rparr>)"
proof -
  let ?df = "[(''time(ms)'', [Some (Num 1000), None, Some (Num 2000)]),
              (''RPM'', [Some (Num 800), Some (Num 999), Some (Num 820)])]"
  let ?df' = "[(''time(ms)'', [Some (Num 1000), Some (Num 2000)]),
               (''RPM'', [Some (Num 800), Some (Num 820)])]"
  have s: "strip_columns ?df = ?df" by (simp add: strip_columns_def strip_plain strip_more)
  have l: "\<not> long_format (strip_columns ?df)"
    unfolding s by (simp add: long_format_def labels_def)
  have w: "wide_format (strip_columns ?df)"
    unfolding s by (simp add: wide_format_def labels_def)
  have d: "dropna_subset ?df ''time(ms)'' = ?df'" by (simp add: dropna_subset_def)
  have e: "load_wide plain ?df' =
             Inr \<lparr>index = [Num 1, Num 2], columns = [(Str ''RPM'', [Some 800, Some 820])]\<rparr>"
    by (simp add: wide_defs labels_def)
  from untimed_rows_excluded[OF untimed_frame l w] d e show ?thesis by (simp add: s)
qed

end
